theory Spec2Isabelle
  imports Complex_Main "HOL-Library.Multiset" "HOL-Library.Log_Nat"
begin

section \<open>Counters: Python dictionaries with a default of zero\<close>

text \<open>
  The notebook is Python 2 code (it uses the \<^verbatim>\<open>print\<close> statement) built on
  \<^verbatim>\<open>collections.Counter\<close>, a \<^verbatim>\<open>dict\<close> subclass. A dictionary is modelled as
  an association list with pairwise distinct keys, in iteration order. Every theorem
  below that depends on the iteration order holds for all orders, because the list is
  universally quantified.

  Counts are Python integers (\<^typ>\<open>int\<close>). The weights of a Pmf are Python floats.
  The dice, their sums and the Bayesian updates are computed with exact rationals
  (\<^typ>\<open>rat\<close>): there a division by zero raises, as it does in Python for integers
  and floats alike, and rounding is left out. \<^verbatim>\<open>Pmf.normalize\<close> is also modelled
  on Python's own numbers, integers and binary64 floats with rounding, overflow,
  infinities and NaN, in the section on Python's numbers below.
\<close>

datatype error = ZeroDivisionError | OverflowError

type_synonym ('k, 'w) counter = "('k \<times> 'w) list"

text \<open>\<^verbatim>\<open>Counter.__getitem__\<close>: a missing key reads as 0 and is not inserted.\<close>

fun getitem :: "('k, 'w::zero) counter \<Rightarrow> 'k \<Rightarrow> 'w" where
  "getitem [] k = 0"
| "getitem ((k', v) # d) k = (if k' = k then v else getitem d k)"

text \<open>\<^verbatim>\<open>dict.__setitem__\<close>: overwrite the entry of an existing key, or add a new entry.\<close>

fun setitem :: "('k, 'w) counter \<Rightarrow> 'k \<Rightarrow> 'w \<Rightarrow> ('k, 'w) counter" where
  "setitem [] k v = [(k, v)]"
| "setitem ((k', v') # d) k v = (if k' = k then (k, v) # d else (k', v') # setitem d k v)"

text \<open>\<^verbatim>\<open>dict.get(key)\<close>: the stored value, if any.\<close>

fun dict_get :: "('k, 'w) counter \<Rightarrow> 'k \<Rightarrow> 'w option" where
  "dict_get [] k = None"
| "dict_get ((k', v) # d) k = (if k' = k then Some v else dict_get d k)"

text \<open>
  \<^verbatim>\<open>Counter(iterable)\<close>: starting from the empty dictionary, for each element
  \<^verbatim>\<open>self[elem] = self.get(elem, 0) + 1\<close>.
\<close>

definition Counter :: "'k list \<Rightarrow> ('k, 'w::{zero,one,plus}) counter" where
  "Counter iterable = fold (\<lambda>elem self. setitem self elem (getitem self elem + 1)) iterable []"

text \<open>
  \<^verbatim>\<open>==\<close> on two Counters. In Python 2.7, the language of the notebook, and in every
  Python 3 before 3.10, \<^verbatim>\<open>Counter\<close> does not override \<^verbatim>\<open>__eq__\<close>, so this is
  dictionary equality: the same number of entries, and every entry of the left operand
  is stored under the same key with an equal value on the right.
\<close>

definition dict_eq :: "('k, 'w) counter \<Rightarrow> ('k, 'w) counter \<Rightarrow> bool" where
  "dict_eq a b = (length a = length b \<and> list_all (\<lambda>(k, v). dict_get b k = Some v) a)"

definition is_anagram :: "string \<Rightarrow> string \<Rightarrow> bool" where
  "is_anagram word1 word2 = dict_eq (Counter word1 :: (char, int) counter) (Counter word2)"

section \<open>Multisets\<close>

text \<open>
  \<^verbatim>\<open>Multiset.is_subset\<close>: the loop over \<^verbatim>\<open>self.items()\<close> returns False at the first
  entry whose count exceeds the weight of the same value in \<^verbatim>\<open>other\<close>.
\<close>

fun is_subset :: "('k, int) counter \<Rightarrow> ('k, int) counter \<Rightarrow> bool" where
  "is_subset [] other = True"
| "is_subset ((char, n) # items) other =
     (if getitem other char < n then False else is_subset items other)"

definition can_spell :: "string \<Rightarrow> string \<Rightarrow> bool" where
  "can_spell word tiles = is_subset (Counter word) (Counter tiles)"

section \<open>Probability mass functions\<close>

type_synonym 'k pmf_items = "('k, rat) counter"

text \<open>The division \<^verbatim>\<open>x / total\<close> raises when the divisor is zero.\<close>

definition py_div :: "rat \<Rightarrow> rat \<Rightarrow> error + rat" where
  "py_div x total' = (if total' = 0 then Inl ZeroDivisionError else Inr (x / total'))"

text \<open>
  \<^verbatim>\<open>Pmf.normalize\<close>: the total is computed first; the loop \<^verbatim>\<open>for key in self\<close>
  then replaces each weight by its quotient. The loop runs over the keys of the
  dictionary, whose set does not change while the values are overwritten.
\<close>

fun normalize_loop :: "rat \<Rightarrow> 'k list \<Rightarrow> 'k pmf_items \<Rightarrow> error + 'k pmf_items" where
  "normalize_loop total' [] self = Inr self"
| "normalize_loop total' (key # keys) self =
     (case py_div (getitem self key) total' of
        Inl e \<Rightarrow> Inl e
      | Inr v \<Rightarrow> normalize_loop total' keys (setitem self key v))"

definition normalize :: "'k pmf_items \<Rightarrow> error + 'k pmf_items" where
  "normalize self = normalize_loop (sum_list (map snd self)) (map fst self) self"

text \<open>
  \<^verbatim>\<open>Pmf.__add__\<close> on the contents of the operands: the nested loops over
  \<^verbatim>\<open>self.items()\<close> and \<^verbatim>\<open>other.items()\<close> accumulate into \<^verbatim>\<open>pmf\<close>, which
  starts empty. \<^verbatim>\<open>pmf[k] += x\<close> reads the weight (0 when absent) and stores the sum.
\<close>

definition iadd_item :: "('k, 'w::{zero,plus}) counter \<Rightarrow> 'k \<Rightarrow> 'w \<Rightarrow> ('k, 'w) counter" where
  "iadd_item pmf k x = setitem pmf k (getitem pmf k + x)"

fun add_inner :: "'k::plus \<Rightarrow> rat \<Rightarrow> 'k pmf_items \<Rightarrow> 'k pmf_items \<Rightarrow> 'k pmf_items" where
  "add_inner key1 prob1 [] pmf = pmf"
| "add_inner key1 prob1 ((key2, prob2) # items2) pmf =
     add_inner key1 prob1 items2 (iadd_item pmf (key1 + key2) (prob1 * prob2))"

fun add_outer :: "'k::plus pmf_items \<Rightarrow> 'k pmf_items \<Rightarrow> 'k pmf_items \<Rightarrow> 'k pmf_items" where
  "add_outer [] other pmf = pmf"
| "add_outer ((key1, prob1) # items1) other pmf =
     add_outer items1 other (add_inner key1 prob1 other pmf)"

definition Pmf_add :: "'k::plus pmf_items \<Rightarrow> 'k pmf_items \<Rightarrow> 'k pmf_items" where
  "Pmf_add self other = add_outer self other []"

text \<open>
  The same method on objects. A heap is the list of the Pmf objects that exist, an
  object's identity (\<^verbatim>\<open>id\<close>) is its position, and \<^verbatim>\<open>Pmf()\<close> allocates a new
  empty object behind the existing ones. \<^verbatim>\<open>self.items()\<close> is read once, before the
  outer loop; \<^verbatim>\<open>other.items()\<close> is read again in every round of the outer loop, from
  the heap as it is then; every write goes through the reference \<^verbatim>\<open>pmf\<close>.
  A reference that a program holds is the position of an existing object, so the
  theorems about the heap are stated for positions below its length.
\<close>

type_synonym ref = nat

type_synonym 'k heap = "'k pmf_items list"

definition new_Pmf :: "'k heap \<Rightarrow> ref \<times> 'k heap" where
  "new_Pmf h = (length h, h @ [[]])"

fun heap_add_inner :: "ref \<Rightarrow> 'k::plus \<Rightarrow> rat \<Rightarrow> 'k pmf_items \<Rightarrow> 'k heap \<Rightarrow> 'k heap" where
  "heap_add_inner pmf key1 prob1 [] h = h"
| "heap_add_inner pmf key1 prob1 ((key2, prob2) # items2) h =
     heap_add_inner pmf key1 prob1 items2
       (h[pmf := iadd_item (h ! pmf) (key1 + key2) (prob1 * prob2)])"

fun heap_add_outer :: "ref \<Rightarrow> ref \<Rightarrow> 'k::plus pmf_items \<Rightarrow> 'k heap \<Rightarrow> 'k heap" where
  "heap_add_outer pmf other [] h = h"
| "heap_add_outer pmf other ((key1, prob1) # items1) h =
     heap_add_outer pmf other items1 (heap_add_inner pmf key1 prob1 (h ! other) h)"

definition heap_Pmf_add :: "'k::plus heap \<Rightarrow> ref \<Rightarrow> ref \<Rightarrow> ref \<times> 'k heap" where
  "heap_Pmf_add h self other =
     (case new_Pmf h of (pmf, h1) \<Rightarrow> (pmf, heap_add_outer pmf other (h1 ! self) h1))"

text \<open>
  \<^verbatim>\<open>Pmf.__eq__\<close> is \<^verbatim>\<open>self is other\<close> and \<^verbatim>\<open>Pmf.__hash__\<close> is \<^verbatim>\<open>id(self)\<close>.
\<close>

definition Pmf_eq :: "ref \<Rightarrow> ref \<Rightarrow> bool" where
  "Pmf_eq self other = (self = other)"

definition Pmf_hash :: "ref \<Rightarrow> int" where
  "Pmf_hash self = int self"

text \<open>\<^verbatim>\<open>Pmf(iterable)\<close> as an object: the Counter of the iterable, stored at a new reference.\<close>

definition Pmf_of :: "'k heap \<Rightarrow> 'k list \<Rightarrow> ref \<times> 'k heap" where
  "Pmf_of h iterable = (length h, h @ [Counter iterable])"

section \<open>Suites of hypotheses\<close>







text \<open>
  The die that \<^verbatim>\<open>make_die\<close> is meant to build: every face from 1 to the number
  of sides, each with probability one over the number of sides. It is used to state
  results only.
\<close>

definition fair_die :: "int \<Rightarrow> int pmf_items" where
  "fair_die sides = map (\<lambda>face. (face, 1 / of_int sides)) [1..sides]"

section \<open>Python's numbers\<close>

text \<open>
  A Python float is an IEEE binary64 number: a finite value, an infinity or NaN. A finite
  value is kept as the rational it denotes. The two zeros compare equal and behave alike
  in every operation used here (a division by either raises), so they are one value.
\<close>

datatype pyfloat = Finite rat | PosInf | NegInf | NaN

text \<open>
  Rounding a rational to binary64, to nearest with ties to even. \<open>ilog2\<close> is the
  exponent of the leading bit of a positive rational: the bit lengths of numerator and
  denominator give it up to one, and one comparison settles it. The unit in the last
  place is 52 binary places below the leading bit, and never below \<open>2 powi (- 1074)\<close>, the
  smallest subnormal. A result of magnitude \<open>2 ^ 1024\<close> or more is an infinity.
\<close>

definition ilog2 :: "rat \<Rightarrow> int" where
  "ilog2 a = (case quotient_of a of (p, q) \<Rightarrow>
     (let d = bitlen p - bitlen q in if 2 powi d \<le> a then d else d - 1))"

definition round_half_even :: "rat \<Rightarrow> int" where
  "round_half_even q =
     (let n = \<lfloor>q\<rfloor>; r = q - of_int n
      in if r < 1/2 then n else if 1/2 < r then n + 1 else if even n then n else n + 1)"

definition round_double :: "rat \<Rightarrow> pyfloat" where
  "round_double x =
     (if x = 0 then Finite 0
      else let e = max (ilog2 \<bar>x\<bar> - 52) (- 1074);
               r = of_int (round_half_even (x / 2 powi e)) * 2 powi e
           in if 2 ^ 1024 \<le> r then PosInf
              else if r \<le> - (2 ^ 1024) then NegInf
              else Finite r)"


text \<open>
  A weight is an integer or a float. A missing key of a Counter reads as the integer 0.
\<close>

datatype pynum = PyInt int | PyFloat pyfloat

instantiation pynum :: zero
begin

definition zero_pynum :: pynum where
  "zero_pynum = PyInt 0"

instance ..

end

text \<open>
  The conversion of an integer to a float rounds, and raises OverflowError when the
  integer is too large. \<^verbatim>\<open>float(x)\<close> converts an integer and returns a float as it is.
\<close>

definition float_of_int :: "int \<Rightarrow> error + pyfloat" where
  "float_of_int a =
     (case round_double (of_int a) of
        Finite r \<Rightarrow> Inr (Finite r)
      | _ \<Rightarrow> Inl OverflowError)"

fun py_float :: "pynum \<Rightarrow> error + pyfloat" where
  "py_float (PyInt a) = float_of_int a"
| "py_float (PyFloat x) = Inr x"

text \<open>
  Float addition and division: the exact result, rounded; an overflow gives an infinity
  without an error. \<open>float_div\<close> is the quotient for a divisor that is not zero;
  \<open>float_truediv\<close> is the operator, which raises on a zero divisor before anything else.
\<close>

fun float_add :: "pyfloat \<Rightarrow> pyfloat \<Rightarrow> pyfloat" where
  "float_add (Finite a) (Finite b) = round_double (a + b)"
| "float_add NaN y = NaN"
| "float_add x NaN = NaN"
| "float_add PosInf NegInf = NaN"
| "float_add NegInf PosInf = NaN"
| "float_add PosInf y = PosInf"
| "float_add x PosInf = PosInf"
| "float_add NegInf y = NegInf"
| "float_add x NegInf = NegInf"

fun float_div :: "pyfloat \<Rightarrow> pyfloat \<Rightarrow> pyfloat" where
  "float_div (Finite a) (Finite b) = round_double (a / b)"
| "float_div NaN y = NaN"
| "float_div x NaN = NaN"
| "float_div (Finite a) y = Finite 0"
| "float_div PosInf (Finite b) = (if 0 < b then PosInf else NegInf)"
| "float_div NegInf (Finite b) = (if 0 < b then NegInf else PosInf)"
| "float_div x y = NaN"

definition float_truediv :: "pyfloat \<Rightarrow> pyfloat \<Rightarrow> error + pyfloat" where
  "float_truediv x y = (if y = Finite 0 then Inl ZeroDivisionError else Inr (float_div x y))"

text \<open>
  \<^verbatim>\<open>x + y\<close> on weights: two integers add exactly; otherwise both operands are
  converted to floats. \<^verbatim>\<open>sum(iterable)\<close> starts from the integer 0 and adds the items
  in order.
\<close>

fun py_add :: "pynum \<Rightarrow> pynum \<Rightarrow> error + pynum" where
  "py_add (PyInt a) (PyInt b) = Inr (PyInt (a + b))"
| "py_add x y =
     (case py_float x of
        Inl e \<Rightarrow> Inl e
      | Inr fx \<Rightarrow>
          (case py_float y of
             Inl e \<Rightarrow> Inl e
           | Inr fy \<Rightarrow> Inr (PyFloat (float_add fx fy))))"

fun sum_from :: "pynum \<Rightarrow> pynum list \<Rightarrow> error + pynum" where
  "sum_from result [] = Inr result"
| "sum_from result (item # items) =
     (case py_add result item of
        Inl e \<Rightarrow> Inl e
      | Inr result' \<Rightarrow> sum_from result' items)"

definition py_sum :: "pynum list \<Rightarrow> error + pynum" where
  "py_sum iterable = sum_from (PyInt 0) iterable"

text \<open>
  \<^verbatim>\<open>w /= total\<close> for a float \<^verbatim>\<open>total\<close>: the weight is converted to a float first,
  then divided; the new weight is a float.
\<close>

definition py_itruediv :: "pynum \<Rightarrow> pyfloat \<Rightarrow> error + pynum" where
  "py_itruediv w t =
     (case py_float w of
        Inl e \<Rightarrow> Inl e
      | Inr x \<Rightarrow>
          (case float_truediv x t of
             Inl e \<Rightarrow> Inl e
           | Inr v \<Rightarrow> Inr (PyFloat v)))"

text \<open>
  \<^verbatim>\<open>Pmf.normalize\<close> on Python's numbers: \<^verbatim>\<open>total = float(sum(self.values()))\<close>,
  then the loop \<^verbatim>\<open>for key in self: self[key] /= total\<close>. An error ends the method
  where it is raised.
\<close>

definition float_total :: "('k, pynum) counter \<Rightarrow> error + pyfloat" where
  "float_total self =
     (case py_sum (map snd self) of
        Inl e \<Rightarrow> Inl e
      | Inr s \<Rightarrow> py_float s)"

fun float_normalize_loop ::
    "pyfloat \<Rightarrow> 'k list \<Rightarrow> ('k, pynum) counter \<Rightarrow> error + ('k, pynum) counter" where
  "float_normalize_loop total' [] self = Inr self"
| "float_normalize_loop total' (key # keys) self =
     (case py_itruediv (getitem self key) total' of
        Inl e \<Rightarrow> Inl e
      | Inr v \<Rightarrow> float_normalize_loop total' keys (setitem self key v))"

definition float_normalize :: "('k, pynum) counter \<Rightarrow> error + ('k, pynum) counter" where
  "float_normalize self =
     (case float_total self of
        Inl e \<Rightarrow> Inl e
      | Inr total' \<Rightarrow> float_normalize_loop total' (map fst self) self)"

text \<open>
  An entry and the entry that \<^verbatim>\<open>self[key] /= total\<close> leaves in its place: the same
  key, and the quotient of the weight by the total, when the division succeeds.
\<close>

definition divided_by :: "pyfloat \<Rightarrow> 'k \<times> pynum \<Rightarrow> 'k \<times> pynum \<Rightarrow> bool" where
  "divided_by t = (\<lambda>(k, w) (k', w'). k' = k \<and> py_itruediv w t = Inr w')"

section \<open>String keys\<close>

text \<open>A Python string as a key: \<^verbatim>\<open>+\<close> on strings is concatenation.\<close>

datatype pystr = Str string

instantiation pystr :: semigroup_add
begin

fun plus_pystr :: "pystr \<Rightarrow> pystr \<Rightarrow> pystr" where
  "plus_pystr (Str a) (Str b) = Str (a @ b)"

instance
proof
  fix a b c :: pystr
  show "a + b + c = a + (b + c)"
    by (cases a; cases b; cases c) simp
qed

end

section \<open>Basic facts about dictionaries\<close>

lemma getitem_setitem: "getitem (setitem d k v) k' = (if k' = k then v else getitem d k')"
  by (induction d) auto

lemma keys_setitem:
  "map fst (setitem d k v) = (if k \<in> set (map fst d) then map fst d else map fst d @ [k])"
  by (induction d) force+

lemma keys_setitem_set: "fst ` set (setitem d k v) = insert k (fst ` set d)"
proof -
  have "set (map fst (setitem d k v)) = insert k (set (map fst d))"
    unfolding keys_setitem by (simp add: insert_absorb)
  then show ?thesis by simp
qed

lemma distinct_setitem: "distinct (map fst d) \<Longrightarrow> distinct (map fst (setitem d k v))"
  by (simp add: keys_setitem)


lemma dict_get_None: "dict_get d k = None \<longleftrightarrow> k \<notin> set (map fst d)"
  by (induction d) force+

lemma dict_get_getitem:
  "dict_get d k = (if k \<in> fst ` set d then Some (getitem d k) else None)"
  by (induction d) force+

lemma dict_get_Some_getitem: "dict_get d k = Some v \<Longrightarrow> getitem d k = v"
  by (induction d) (auto split: if_splits)

lemma getitem_absent: "k \<notin> set (map fst d) \<Longrightarrow> getitem d k = 0"
  by (induction d) auto

lemma dict_get_member: "distinct (map fst d) \<Longrightarrow> (k, v) \<in> set d \<Longrightarrow> dict_get d k = Some v"
  by (induction d) (auto simp: rev_image_eqI)

lemma dict_get_in: "dict_get d k = Some v \<Longrightarrow> (k, v) \<in> set d"
  by (induction d) (auto split: if_splits)

lemma getitem_member: "distinct (map fst d) \<Longrightarrow> (k, v) \<in> set d \<Longrightarrow> getitem d k = v"
  by (simp add: dict_get_member dict_get_Some_getitem)

text \<open>Overwriting the value of a stored key, seen entry by entry.\<close>

lemma setitem_present:
  "distinct (map fst d) \<Longrightarrow> k \<in> set (map fst d) \<Longrightarrow>
   setitem d k v = map (\<lambda>(k', w). (k', if k' = k then v else w)) d"
proof (induction d)
  case Nil
  then show ?case by simp
next
  case (Cons p d)
  obtain k' w where p: "p = (k', w)" by (cases p)
  show ?case
  proof (cases "k' = k")
    case True
    with Cons.prems p have "k \<notin> fst ` set d" by auto
    then have "map (\<lambda>(k', w). (k', if k' = k then v else w)) d = d"
      by (induction d) auto
    with True p show ?thesis by simp
  next
    case False
    with Cons p show ?thesis by auto
  qed
qed

lemma keys_scaled: "map fst (map (\<lambda>(h, w). (h, f h w)) self) = map fst self"
  by (simp add: case_prod_unfold comp_def)

section \<open>Counters built from sequences\<close>



lemma getitem_Counter_fold:
  "getitem (fold (\<lambda>elem self. setitem self elem (getitem self elem + 1)) xs d) k
     = getitem d k + (of_nat (count_list xs k) :: 'w::semiring_1)"
  by (induction xs arbitrary: d) (auto simp: getitem_setitem add.assoc)

lemma keys_Counter_fold:
  "fst ` set (fold (\<lambda>elem self. setitem self elem (getitem self elem + (1::'w::{zero,one,plus}))) xs d)
     = fst ` set d \<union> set xs"
  by (induction xs arbitrary: d) (simp_all add: keys_setitem_set)

lemma distinct_Counter_fold:
  "distinct (map fst d) \<Longrightarrow>
   distinct (map fst (fold (\<lambda>elem self. setitem self elem (getitem self elem + (1::'w::{zero,one,plus}))) xs d))"
  by (induction xs arbitrary: d) (simp_all add: distinct_setitem)

lemma getitem_Counter: "getitem (Counter xs) k = (of_nat (count_list xs k) :: 'w::semiring_1)"
  by (simp add: Counter_def getitem_Counter_fold)

lemma keys_Counter: "fst ` set (Counter xs :: ('k, 'w::{zero,one,plus}) counter) = set xs"
  by (simp add: Counter_def keys_Counter_fold)

lemma distinct_Counter: "distinct (map fst (Counter xs :: ('k, 'w::{zero,one,plus}) counter))"
  by (simp add: Counter_def distinct_Counter_fold)

lemma dict_get_Counter:
  "dict_get (Counter xs) k =
     (if k \<in> set xs then Some (of_nat (count_list xs k) :: 'w::semiring_1) else None)"
  by (simp add: dict_get_getitem keys_Counter getitem_Counter)

lemma entry_of_Counter:
  "(k, n) \<in> set (Counter xs) \<longleftrightarrow> k \<in> set xs \<and> n = (of_nat (count_list xs k) :: 'w::semiring_1)"
proof
  assume kn: "(k, n) \<in> set (Counter xs)"
  then have "dict_get (Counter xs) k = Some n"
    using distinct_Counter by (rule dict_get_member [rotated])
  then show "k \<in> set xs \<and> n = of_nat (count_list xs k)"
    by (simp add: dict_get_Counter split: if_splits)
next
  assume "k \<in> set xs \<and> n = of_nat (count_list xs k)"
  then have "dict_get (Counter xs) k = Some n"
    by (simp add: dict_get_Counter)
  then show "(k, n) \<in> set (Counter xs)"
    by (rule dict_get_in)
qed

section \<open>Normalization\<close>

lemma normalize_loop_zero:
  "normalize_loop 0 keys self = (if keys = [] then Inr self else Inl ZeroDivisionError)"
  by (cases keys) (simp_all add: py_div_def)

lemma normalize_loop_nonzero:
  assumes "t \<noteq> 0"
  shows "distinct (map fst self) \<Longrightarrow> distinct keys \<Longrightarrow> set keys \<subseteq> set (map fst self) \<Longrightarrow>
         normalize_loop t keys self =
           Inr (map (\<lambda>(k, w). (k, if k \<in> set keys then w / t else w)) self)"
proof (induction keys arbitrary: self)
  case Nil
  then show ?case by (simp add: case_prod_unfold)
next
  case (Cons key keys)
  let ?v = "getitem self key / t"
  let ?self' = "map (\<lambda>(k', w). (k', if k' = key then ?v else w)) self"
  have key_in: "key \<in> set (map fst self)" and key_new: "key \<notin> set keys"
    using Cons.prems by auto
  have step: "setitem self key ?v = ?self'"
    using Cons.prems(1) key_in by (rule setitem_present)
  have keys': "map fst ?self' = map fst self"
    by (rule keys_scaled)
  have "normalize_loop t keys ?self' =
          Inr (map (\<lambda>(k, w). (k, if k \<in> set keys then w / t else w)) ?self')"
    using Cons.prems unfolding keys' by (intro Cons.IH; simp only: keys'; simp)
  moreover have "map (\<lambda>(k, w). (k, if k \<in> set keys then w / t else w)) ?self' =
                 map (\<lambda>(k, w). (k, if k \<in> set (key # keys) then w / t else w)) self"
    using key_new getitem_member [OF Cons.prems(1)] by auto
  ultimately show ?case
    using assms step by (simp add: py_div_def)
qed

lemma normalize_eq:
  assumes "distinct (map fst self)"
  shows "normalize self =
           (if self \<noteq> [] \<and> sum_list (map snd self) = 0 then Inl ZeroDivisionError
            else Inr (map (\<lambda>(k, w). (k, w / sum_list (map snd self))) self))"
proof (cases "sum_list (map snd self) = 0")
  case True
  then show ?thesis
    unfolding normalize_def True normalize_loop_zero by (cases self) simp_all
next
  case False
  have "map (\<lambda>(k, w). (k, if k \<in> set (map fst self) then w / sum_list (map snd self) else w)) self
        = map (\<lambda>(k, w). (k, w / sum_list (map snd self))) self"
    by (rule map_cong) (auto simp: rev_image_eqI)
  with False assms show ?thesis
    by (simp add: normalize_def normalize_loop_nonzero)
qed

lemma sum_list_divide: "sum_list (map (\<lambda>x. f x / c) xs) = sum_list (map f xs) / (c::rat)"
  by (induction xs) (simp_all add: add_divide_distrib)

section \<open>Rounding to binary64\<close>

























section \<open>Normalization with Python's numbers\<close>

lemma getitem_append_absent: "k \<notin> fst ` set d \<Longrightarrow> getitem (d @ d') k = getitem d' k"
  by (induction d) auto

lemma setitem_append_absent: "k \<notin> fst ` set d \<Longrightarrow> setitem (d @ d') k v = d @ setitem d' k v"
  by (induction d) auto

lemma float_of_int_error: "float_of_int a = Inl e \<Longrightarrow> e = OverflowError"
  by (auto simp: float_of_int_def split: pyfloat.splits)

lemma py_float_error: "py_float w = Inl e \<Longrightarrow> e = OverflowError"
  by (cases w) (auto dest: float_of_int_error)

lemma py_itruediv_zero:
  "py_itruediv w (Finite 0) =
     (case py_float w of Inl e \<Rightarrow> Inl e | Inr x \<Rightarrow> Inl ZeroDivisionError)"
  by (simp add: py_itruediv_def float_truediv_def split: sum.splits)

lemma py_itruediv_nonzero:
  "t \<noteq> Finite 0 \<Longrightarrow>
   py_itruediv w t =
     (case py_float w of Inl e \<Rightarrow> Inl e | Inr x \<Rightarrow> Inr (PyFloat (float_div x t)))"
  by (simp add: py_itruediv_def float_truediv_def split: sum.splits)

lemma py_itruediv_ZeroDivisionError:
  "py_itruediv w t = Inl ZeroDivisionError \<longleftrightarrow> t = Finite 0 \<and> (\<exists>x. py_float w = Inr x)"
proof (cases "t = Finite 0")
  case True
  then show ?thesis
    by (auto simp: py_itruediv_zero split: sum.splits dest: py_float_error)
next
  case False
  then show ?thesis
    by (auto simp: py_itruediv_nonzero split: sum.splits dest: py_float_error)
qed

lemma float_normalize_loop_ZeroDivisionError:
  "float_normalize_loop t keys self = Inl ZeroDivisionError \<Longrightarrow> t = Finite 0"
  by (induction keys arbitrary: self)
     (auto simp: py_itruediv_ZeroDivisionError split: sum.splits)

lemma float_normalize_loop_returns:
  "distinct (map fst (before @ todo)) \<Longrightarrow>
   float_normalize_loop t (map fst todo) (before @ todo) = Inr r \<longleftrightarrow>
     (\<exists>todo'. r = before @ todo' \<and> list_all2 (divided_by t) todo todo')"
proof (induction todo arbitrary: before)
  case Nil
  then show ?case by auto
next
  case (Cons item todo)
  obtain k w where item: "item = (k, w)" by (cases item)
  have k: "k \<notin> fst ` set before"
    using Cons.prems by (auto simp: item)
  have get: "getitem (before @ (k, w) # todo) k = w"
    by (simp add: getitem_append_absent [OF k])
  show ?case
  proof (cases "py_itruediv w t")
    case (Inl e)
    then show ?thesis
      by (auto simp: get item divided_by_def list_all2_Cons1)
  next
    case (Inr v)
    have set: "setitem (before @ (k, w) # todo) k v = (before @ [(k, v)]) @ todo"
      by (simp add: setitem_append_absent [OF k])
    have "distinct (map fst ((before @ [(k, v)]) @ todo))"
      using Cons.prems by (simp add: item)
    from Cons.IH [OF this]
    have "float_normalize_loop t (map fst todo) ((before @ [(k, v)]) @ todo) = Inr r \<longleftrightarrow>
            (\<exists>todo'. r = (before @ [(k, v)]) @ todo' \<and> list_all2 (divided_by t) todo todo')" .
    also have "\<dots> \<longleftrightarrow> (\<exists>todo'. r = before @ todo' \<and> list_all2 (divided_by t) (item # todo) todo')"
      using Inr by (auto simp: item divided_by_def list_all2_Cons1)
    finally show ?thesis
      using Inr by (simp add: get set item del: append_assoc)
  qed
qed

lemma float_normalize_loop_all:
  assumes "distinct (map fst self)"
  shows "float_normalize_loop t (map fst self) self = Inr self' \<longleftrightarrow>
           list_all2 (divided_by t) self self'"
  using float_normalize_loop_returns [of "[]" self t self'] assms by simp







lemma float_normalize_nonzero_total:
  assumes "distinct (map fst self)" and "float_total self = Inr t" and "t \<noteq> Finite 0"
  shows "float_normalize self = Inr self' \<longleftrightarrow> list_all2 (divided_by t) self self'"
    and "float_normalize self \<noteq> Inl ZeroDivisionError"
  using assms float_normalize_loop_ZeroDivisionError [of t "map fst self" self]
  by (auto simp: float_normalize_def float_normalize_loop_all)


lemma float_normalize_exact:
  fixes ws :: "('k \<times> rat) list"
  defines "T \<equiv> sum_list (map snd ws)"
  assumes d: "distinct (map fst ws)"
    and total: "float_total (map (\<lambda>(k, w). (k, PyFloat (Finite w))) ws) = Inr (Finite T)"
    and nz: "T \<noteq> 0"
    and exact: "list_all (\<lambda>(k, w). round_double (w / T) = Finite (w / T)) ws"
  shows "float_normalize (map (\<lambda>(k, w). (k, PyFloat (Finite w))) ws) =
           Inr (map (\<lambda>(k, w). (k, PyFloat (Finite (w / T)))) ws)"
    and "sum_list (map (\<lambda>(k, w). w / T) ws) = 1"
proof -
  let ?self = "map (\<lambda>(k, w). (k, PyFloat (Finite w))) ws"
  have keys: "map fst ?self = map fst ws"
    by (simp add: case_prod_unfold comp_def)
  have t: "Finite T \<noteq> Finite 0" using nz by simp
  have "list_all2 (divided_by (Finite T)) ?self (map (\<lambda>(k, w). (k, PyFloat (Finite (w / T)))) ws)"
    using exact nz
    by (auto simp: list_all2_map1 list_all2_map2 list_all2_same list_all_iff divided_by_def
        py_itruediv_def float_truediv_def)
  moreover have "distinct (map fst ?self)"
    using d by (simp only: keys)
  ultimately show "float_normalize ?self = Inr (map (\<lambda>(k, w). (k, PyFloat (Finite (w / T)))) ws)"
    using float_normalize_nonzero_total(1) [OF _ total t] by simp
  have "sum_list (map (\<lambda>(k, w). w / T) ws) = sum_list (map snd ws) / T"
    by (simp add: case_prod_unfold sum_list_divide)
  with nz show "sum_list (map (\<lambda>(k, w). w / T) ws) = 1"
    by (simp add: T_def)
qed









text \<open>
  Where no operation rounds, the method on Python's numbers and the method on exact
  rationals give the same weights.
\<close>

lemma float_normalize_agrees:
  fixes ws :: "('k \<times> rat) list"
  assumes "distinct (map fst ws)"
    and "float_total (map (\<lambda>(k, w). (k, PyFloat (Finite w))) ws)
           = Inr (Finite (sum_list (map snd ws)))"
    and "sum_list (map snd ws) \<noteq> 0"
    and "list_all (\<lambda>(k, w). round_double (w / sum_list (map snd ws))
                            = Finite (w / sum_list (map snd ws))) ws"
  shows "\<exists>ws'. normalize ws = Inr ws'
           \<and> float_normalize (map (\<lambda>(k, w). (k, PyFloat (Finite w))) ws)
               = Inr (map (\<lambda>(k, w). (k, PyFloat (Finite w))) ws')"
proof -
  have "normalize ws = Inr (map (\<lambda>(k, w). (k, w / sum_list (map snd ws))) ws)"
    using assms(1,3) by (simp add: normalize_eq)
  moreover have "map (\<lambda>(k, w). (k, PyFloat (Finite w)))
                   (map (\<lambda>(k, w). (k, w / sum_list (map snd ws))) ws)
                 = map (\<lambda>(k, w). (k, PyFloat (Finite (w / sum_list (map snd ws))))) ws"
    by (simp add: case_prod_unfold)
  ultimately show ?thesis
    using float_normalize_exact(1) [OF assms] by simp
qed







section \<open>The dice\<close>




section \<open>Bayesian update\<close>











section \<open>The distribution of a sum\<close>






















subsection \<open>Regrouping and swapping the operands\<close>












section \<open>Pmf objects\<close>

lemma heap_add_inner_eq:
  "pmf < length h \<Longrightarrow>
   heap_add_inner pmf key1 prob1 items2 h = h[pmf := add_inner key1 prob1 items2 (h ! pmf)]"
  by (induction items2 arbitrary: h) auto

lemma heap_add_outer_eq:
  "pmf < length h \<Longrightarrow> other \<noteq> pmf \<Longrightarrow>
   heap_add_outer pmf other items1 h = h[pmf := add_outer items1 (h ! other) (h ! pmf)]"
  by (induction items1 arbitrary: h) (auto simp: heap_add_inner_eq)

lemma heap_Pmf_add_eq:
  assumes "self < length h" and "other < length h"
  shows "heap_Pmf_add h self other = (length h, h @ [Pmf_add (h ! self) (h ! other)])"
proof -
  let ?h1 = "h @ [[]]"
  have "heap_add_outer (length h) other (?h1 ! self) ?h1 =
          ?h1[length h := add_outer (?h1 ! self) (?h1 ! other) (?h1 ! length h)]"
    using assms(2) by (intro heap_add_outer_eq) simp_all
  also have "\<dots> = h @ [add_outer (h ! self) (h ! other) []]"
    using assms by (simp add: nth_append)
  finally show ?thesis
    by (simp add: heap_Pmf_add_def new_Pmf_def Pmf_add_def)
qed

text \<open>
  Claim C10. \<^verbatim>\<open>Pmf.__add__\<close> called on two existing objects, which may be one and
  the same object, returns a reference that did not exist before; every object that
  existed before the call, the two operands among them, has the contents it had; the
  new object holds the distribution of the sum of the operands' contents.
\<close>

theorem Pmf_add_frame:
  assumes "self < length h" and "other < length h"
  shows "case heap_Pmf_add h self other of (pmf, h') \<Rightarrow>
           pmf = length h \<and> length h' = Suc (length h) \<and> take (length h) h' = h
           \<and> h' ! self = h ! self \<and> h' ! other = h ! other
           \<and> h' ! pmf = Pmf_add (h ! self) (h ! other)"
  using assms by (simp add: heap_Pmf_add_eq nth_append)

theorem Pmf_add_frame_witness:
  "(0::nat) < length [fair_die 6]
   \<and> (case heap_Pmf_add [fair_die 6] 0 0 of (pmf, h') \<Rightarrow>
         pmf = 1 \<and> length h' = 2 \<and> h' ! 0 = fair_die 6
         \<and> h' ! 1 = Pmf_add (fair_die 6) (fair_die 6))"
  using Pmf_add_frame [of 0 "[fair_die 6]" 0] by (simp split: prod.splits)

text \<open>
  Claim C9. Two Pmf references are equal under \<^verbatim>\<open>__eq__\<close> exactly when they are
  the same reference, and they have the same hash exactly when they are the same
  reference; the contents play no part. Two Pmfs built one after the other from the same
  iterable have the same contents, are not equal and have different hashes.
\<close>

theorem Pmf_identity:
  "(Pmf_eq a b \<longleftrightarrow> a = b) \<and> (Pmf_hash a = Pmf_hash b \<longleftrightarrow> a = b)
   \<and> (case Pmf_of h iterable of (pmf_a, h1) \<Rightarrow>
        case Pmf_of h1 iterable of (pmf_b, h2) \<Rightarrow>
          h2 ! pmf_a = h2 ! pmf_b \<and> \<not> Pmf_eq pmf_a pmf_b \<and> Pmf_hash pmf_a \<noteq> Pmf_hash pmf_b)"
  by (simp add: Pmf_eq_def Pmf_hash_def Pmf_of_def nth_append)

section \<open>Multisets and anagrams\<close>

lemma is_subset_iff: "is_subset self other \<longleftrightarrow> (\<forall>(c, n) \<in> set self. n \<le> getitem other c)"
  by (induction self) (auto simp: not_less split: if_splits)

lemma getitem_nonneg:
  "\<forall>(c, n) \<in> set d. 0 \<le> n \<Longrightarrow> 0 \<le> (getitem d k :: int)"
  by (induction d) auto

lemma can_spell_iff: "can_spell word tiles \<longleftrightarrow> (\<forall>c. count_list word c \<le> count_list tiles c)"
proof -
  have "can_spell word tiles \<longleftrightarrow> (\<forall>c \<in> set word. count_list word c \<le> count_list tiles c)"
    by (simp add: can_spell_def is_subset_iff Ball_def entry_of_Counter getitem_Counter)
  also have "\<dots> \<longleftrightarrow> (\<forall>c. count_list word c \<le> count_list tiles c)"
    by (metis count_list_0_iff le0)
  finally show ?thesis .
qed

text \<open>
  Claim C7. When no count stored in \<^verbatim>\<open>other\<close> is negative, \<^verbatim>\<open>is_subset\<close> returns
  True exactly when every entry of \<^verbatim>\<open>self\<close> with a positive count has at most the
  weight that \<^verbatim>\<open>other\<close> has at the same value (0 when the value is absent); on an
  empty \<^verbatim>\<open>self\<close> it returns True. \<^verbatim>\<open>can_spell\<close> is True exactly when every letter
  occurs in the tiles at least as often as in the word, as for SYZYGY and AGSYYYZ.
  The method only reads: reading a missing key of a Counter gives 0 and stores nothing,
  so the result is the Boolean alone.
\<close>

theorem is_subset_spec:
  assumes "\<forall>(c, n) \<in> set other. 0 \<le> n"
  shows "(is_subset self other \<longleftrightarrow> (\<forall>(c, n) \<in> set self. 0 < n \<longrightarrow> n \<le> getitem other c))
       \<and> is_subset [] other
       \<and> (can_spell word tiles \<longleftrightarrow> (\<forall>c. count_list word c \<le> count_list tiles c))
       \<and> can_spell ''SYZYGY'' ''AGSYYYZ''"
proof -
  have "n \<le> getitem other c" if "n \<le> 0" for c n
    using getitem_nonneg [OF assms, of c] that by simp
  then have "is_subset self other \<longleftrightarrow> (\<forall>(c, n) \<in> set self. 0 < n \<longrightarrow> n \<le> getitem other c)"
    unfolding is_subset_iff by (metis (mono_tags, lifting) case_prodI2 case_prod_conv not_le)
  moreover have "can_spell ''SYZYGY'' ''AGSYYYZ''"
    by (simp add: can_spell_def Counter_def)
  ultimately show ?thesis
    by (simp add: can_spell_iff)
qed

theorem is_subset_spec_witness:
  "list_all (\<lambda>(c, n). 0 \<le> n) [(CHR ''a'', 2::int), (CHR ''b'', 1)]
   \<and> is_subset [(CHR ''a'', 2), (CHR ''c'', 0)] [(CHR ''a'', 2), (CHR ''b'', 1)]
   \<and> \<not> is_subset [(CHR ''a'', 3)] [(CHR ''a'', 2), (CHR ''b'', 1)]
   \<and> \<not> can_spell ''AA'' ''AB''"
  using is_subset_spec [of "[(CHR ''a'', 2::int), (CHR ''b'', 1)]"
      "[(CHR ''a'', 2), (CHR ''c'', 0)]" "''AA''" "''AB''"]
    is_subset_spec [of "[(CHR ''a'', 2::int), (CHR ''b'', 1)]" "[(CHR ''a'', 3)]" "''AA''" "''AB''"]
  by simp

subsection \<open>Equality of Counters\<close>

lemma dict_eq_iff:
  assumes a: "distinct (map fst a)" and b: "distinct (map fst b)"
  shows "dict_eq a b \<longleftrightarrow> (\<forall>k. dict_get a k = dict_get b k)"
proof
  assume eq: "dict_eq a b"
  then have len: "length a = length b"
    and sub: "\<And>k v. (k, v) \<in> set a \<Longrightarrow> dict_get b k = Some v"
    by (auto simp: dict_eq_def list_all_iff)
  have "fst ` set a \<subseteq> fst ` set b"
  proof
    fix k assume "k \<in> fst ` set a"
    then obtain v where "(k, v) \<in> set a" by auto
    then have "dict_get b k = Some v" by (rule sub)
    then have "(k, v) \<in> set b" by (rule dict_get_in)
    then show "k \<in> fst ` set b" by (rule rev_image_eqI) simp
  qed
  moreover have "card (fst ` set a) = card (fst ` set b)"
    using distinct_card [OF a] distinct_card [OF b] len by simp
  ultimately have keys: "fst ` set a = fst ` set b"
    by (intro card_subset_eq) simp_all
  show "\<forall>k. dict_get a k = dict_get b k"
  proof
    fix k
    show "dict_get a k = dict_get b k"
    proof (cases "dict_get a k")
      case None
      then have "k \<notin> fst ` set b"
        using keys by (simp add: dict_get_None)
      then have "dict_get b k = None"
        by (simp add: dict_get_None)
      with None show ?thesis
        by simp
    next
      case (Some v)
      then have "(k, v) \<in> set a" by (rule dict_get_in)
      then have "dict_get b k = Some v" by (rule sub)
      with Some show ?thesis by simp
    qed
  qed
next
  assume eq: "\<forall>k. dict_get a k = dict_get b k"
  then have "fst ` set a = fst ` set b"
    using dict_get_None [of a] dict_get_None [of b]
    by (metis list.set_map subsetI subset_antisym)
  then have "card (set (map fst a)) = card (set (map fst b))"
    by simp
  then have "length a = length b"
    using distinct_card [OF a] distinct_card [OF b] by simp
  moreover have "dict_get b k = Some v" if "(k, v) \<in> set a" for k v
    using a that eq by (simp add: dict_get_member [symmetric])
  ultimately show "dict_eq a b"
    by (auto simp: dict_eq_def list_all_iff)
qed

lemma getitem_nonzero_iff:
  "\<forall>(k, v) \<in> set d. v \<noteq> 0 \<Longrightarrow> getitem d k \<noteq> 0 \<longleftrightarrow> k \<in> fst ` set d"
  by (induction d) force+

lemma dict_get_eq_getitem_eq:
  assumes "\<forall>(k, v) \<in> set a. v \<noteq> 0" and "\<forall>(k, v) \<in> set b. v \<noteq> 0"
  shows "(\<forall>k. dict_get a k = dict_get b k) \<longleftrightarrow> (\<forall>k. getitem a k = getitem b k)"
proof
  assume "\<forall>k. dict_get a k = dict_get b k"
  then show "\<forall>k. getitem a k = getitem b k"
    by (simp add: dict_get_getitem split: if_splits) (metis getitem_absent list.set_map)
next
  assume eq: "\<forall>k. getitem a k = getitem b k"
  show "\<forall>k. dict_get a k = dict_get b k"
    using eq getitem_nonzero_iff [OF assms(1)] getitem_nonzero_iff [OF assms(2)]
    by (simp add: dict_get_getitem)
qed

lemma is_anagram_iff:
  "is_anagram word1 word2 \<longleftrightarrow> (\<forall>c. count_list word1 c = count_list word2 c)"
proof -
  have "is_anagram word1 word2 \<longleftrightarrow>
          (\<forall>c. dict_get (Counter word1 :: (char, int) counter) c = dict_get (Counter word2) c)"
    by (simp add: is_anagram_def dict_eq_iff distinct_Counter)
  also have "\<dots> \<longleftrightarrow> (\<forall>c. count_list word1 c = count_list word2 c)"
    by (simp add: dict_get_Counter) (metis count_list_0_iff)
  finally show ?thesis .
qed

text \<open>
  The Counter that stores the letter a with count 0 and the empty Counter have the same
  weight at every value, and \<^verbatim>\<open>==\<close> tells them apart.
\<close>

theorem counter_zero_entry_counterexample:
  "getitem [(CHR ''a'', 0::int)] = getitem ([] :: (char, int) counter)
   \<and> \<not> dict_eq [(CHR ''a'', 0::int)] []"
  by (auto simp: dict_eq_def fun_eq_iff)

text \<open>
  Claim C8, amended. Two Counters are equal under \<^verbatim>\<open>==\<close> exactly when they store
  the same keys with the same weights, so an entry stored with weight 0 differs from an
  absent key. When neither Counter stores a weight 0, this is the same as having the
  same weight at every value, an absent key counting as 0. A Counter built from a
  sequence stores no 0, so \<^verbatim>\<open>is_anagram\<close> is True exactly when the two frequency maps
  have the same weight at every value, that is when every letter occurs equally often
  in both words: True for tachymetric and mccarthyite, False for banana and peach.
\<close>

theorem counter_eq_spec:
  assumes "distinct (map fst a)" and "distinct (map fst b)"
  shows "(dict_eq a b \<longleftrightarrow> (\<forall>k. dict_get a k = dict_get b k))
       \<and> ((\<forall>(k, v) \<in> set a. v \<noteq> 0) \<and> (\<forall>(k, v) \<in> set b. v \<noteq> 0) \<longrightarrow>
            (dict_eq a b \<longleftrightarrow> (\<forall>k. getitem a k = getitem b k)))
       \<and> (is_anagram word1 word2 \<longleftrightarrow>
            (\<forall>c. getitem (Counter word1 :: (char, int) counter) c = getitem (Counter word2) c))
       \<and> (is_anagram word1 word2 \<longleftrightarrow> (\<forall>c. count_list word1 c = count_list word2 c))
       \<and> is_anagram ''tachymetric'' ''mccarthyite''
       \<and> \<not> is_anagram ''banana'' ''peach''"
proof -
  have "is_anagram ''tachymetric'' ''mccarthyite''"
    by (simp add: is_anagram_def Counter_def dict_eq_def)
  moreover have "\<not> is_anagram ''banana'' ''peach''"
    by (simp add: is_anagram_def Counter_def dict_eq_def)
  moreover have "is_anagram word1 word2 \<longleftrightarrow>
            (\<forall>c. getitem (Counter word1 :: (char, int) counter) c = getitem (Counter word2) c)"
    by (simp add: is_anagram_iff getitem_Counter)
  ultimately show ?thesis
    using assms dict_get_eq_getitem_eq [of a b]
    by (simp add: dict_eq_iff is_anagram_iff)
qed

theorem counter_eq_spec_witness:
  "distinct (map fst [(CHR ''a'', 1::int), (CHR ''b'', 2)])
   \<and> distinct (map fst [(CHR ''b'', 2::int), (CHR ''a'', 1)])
   \<and> list_all (\<lambda>(k, v). v \<noteq> 0) [(CHR ''a'', 1::int), (CHR ''b'', 2)]
   \<and> list_all (\<lambda>(k, v). v \<noteq> 0) [(CHR ''b'', 2::int), (CHR ''a'', 1)]
   \<and> dict_eq [(CHR ''a'', 1::int), (CHR ''b'', 2)] [(CHR ''b'', 2), (CHR ''a'', 1)]
   \<and> getitem [(CHR ''a'', 1::int), (CHR ''b'', 2)] = getitem [(CHR ''b'', 2), (CHR ''a'', 1)]"
  using counter_eq_spec [of "[(CHR ''a'', 1::int), (CHR ''b'', 2)]"
      "[(CHR ''b'', 2), (CHR ''a'', 1)]" "''ab''" "''ba''"]
  by (simp add: fun_eq_iff dict_eq_def)

end
